theory Spec2Isabelle
  imports Complex_Main "HOL-Library.AList"
begin

section \<open>The node model (knowledge.ts)\<close>

text \<open>
  A child reference of a Heading: \<^verbatim>\<open>{ id: number; short: string }\<close>.
  Identifiers are JavaScript numbers that only ever hold integer values here (the ROOT
  constant and the values of the store's counter); they are modelled as \<^typ>\<open>int\<close>,
  which is exact for the integers a double represents without rounding.
\<close>

datatype ref = Ref (ref_id: int) (short: string)

text \<open>
  The closed union \<^verbatim>\<open>Document | Heading | Empty\<close>, discriminated by the field
  \<^verbatim>\<open>kind\<close> (\<^verbatim>\<open>"d"\<close>, \<^verbatim>\<open>"h"\<close>, \<^verbatim>\<open>"e"\<close>). The optional
  \<^verbatim>\<open>parentId\<close> is an \<^typ>\<open>int option\<close>; a string's \<^verbatim>\<open>length\<close> is the
  length of the list of its code units.
\<close>

datatype node =
    is_Document: Document (node_id: int) (parentId: "int option") (content: string)
  | is_Heading: Heading (node_id: int) (parentId: "int option") (refs: "ref list")
  | is_Empty: Empty (node_id: int)

definition ROOT_DOC_ID :: int where
  "ROOT_DOC_ID = 0"

definition DEFAULT_K :: int where
  "DEFAULT_K = 4"

definition DEFAULT_MAX_DOCUMENT_SIZE_CHARS :: int where
  "DEFAULT_MAX_DOCUMENT_SIZE_CHARS = 100000"

section \<open>InMemoryKnowledgeStorage\<close>

text \<open>
  The class holds \<^verbatim>\<open>storage: Record<number, Document | Heading | undefined>\<close> and the
  counter \<^verbatim>\<open>id\<close> (here \<open>next_id\<close>, since \<open>id\<close> is the identity function of HOL).
  Every method resolves at once, so a method is a function from the store to its result
  and the store after the call.
\<close>

record InMemoryKnowledgeStorage =
  storage :: "int \<rightharpoonup> node"
  next_id :: int

text \<open>The constructor's defaults: \<^verbatim>\<open>storage = {}\<close>, \<^verbatim>\<open>id = 1\<close>.\<close>

definition new_storage :: InMemoryKnowledgeStorage where
  "new_storage = \<lparr>storage = Map.empty, next_id = 1\<rparr>"

definition generateId :: "InMemoryKnowledgeStorage \<Rightarrow> int \<times> InMemoryKnowledgeStorage" where
  "generateId st = (next_id st, st\<lparr>next_id := next_id st + 1\<rparr>)"

definition get_node :: "InMemoryKnowledgeStorage \<Rightarrow> int \<Rightarrow> node" where
  "get_node st i = (case storage st i of None \<Rightarrow> Empty i | Some elem \<Rightarrow> elem)"

definition set_node :: "InMemoryKnowledgeStorage \<Rightarrow> node \<Rightarrow> InMemoryKnowledgeStorage" where
  "set_node st doc =
     (if is_Empty doc then st\<lparr>storage := (storage st)(node_id doc := None)\<rparr>
      else st\<lparr>storage := (storage st)(node_id doc \<mapsto> doc)\<rparr>)"

text \<open>
  \<^verbatim>\<open>Promise.all(ids.map((id) => this.get(id)))\<close>: the calls run in the order of the
  list and the results keep that order.
\<close>

definition getMany :: "InMemoryKnowledgeStorage \<Rightarrow> int list \<Rightarrow> node list" where
  "getMany st ids = map (get_node st) ids"

definition setMany :: "InMemoryKnowledgeStorage \<Rightarrow> node list \<Rightarrow> InMemoryKnowledgeStorage" where
  "setMany st docs = foldl set_node st docs"

text \<open>
  A client of the store calls its methods in some order. \<open>run_ops\<close> performs a sequence
  of calls and collects, in order, the identifiers \<^verbatim>\<open>generateId\<close> returned.
\<close>

datatype storage_op =
    OpGenerateId
  | OpGet int
  | OpSet node
  | OpGetMany "int list"
  | OpSetMany "node list"

fun run_op :: "int list \<times> InMemoryKnowledgeStorage \<Rightarrow> storage_op \<Rightarrow> int list \<times> InMemoryKnowledgeStorage" where
  "run_op (issued, st) OpGenerateId = (case generateId st of (i, st') \<Rightarrow> (issued @ [i], st'))"
| "run_op (issued, st) (OpGet i) = (issued, st)"
| "run_op (issued, st) (OpSet doc) = (issued, set_node st doc)"
| "run_op (issued, st) (OpGetMany ids) = (issued, st)"
| "run_op (issued, st) (OpSetMany docs) = (issued, setMany st docs)"

definition run_ops :: "storage_op list \<Rightarrow> InMemoryKnowledgeStorage \<Rightarrow> int list \<times> InMemoryKnowledgeStorage" where
  "run_ops ops st = foldl run_op ([], st) ops"

text \<open>
  The invariant of a run: the identifiers issued so far increase strictly, are at least
  1, and lie below the counter.
\<close>

definition issued_inv :: "int list \<times> InMemoryKnowledgeStorage \<Rightarrow> bool" where
  "issued_inv p = (sorted_wrt (<) (fst p) \<and> list_all (\<lambda>i. 1 \<le> i \<and> i < next_id (snd p)) (fst p)
     \<and> 1 \<le> next_id (snd p))"

section \<open>The oracle gateway (agent.ts, tools.ts)\<close>

text \<open>
  A chat completion as \<^verbatim>\<open>_verifyAndCallHandlers\<close> reads it: the list
  \<^verbatim>\<open>response.choices\<close>, each choice with its optional \<^verbatim>\<open>message.tool_calls\<close>
  (\<open>None\<close> is \<^verbatim>\<open>undefined\<close> or \<^verbatim>\<open>null\<close>; an empty array is \<open>Some []\<close>),
  each tool call either of type \<^verbatim>\<open>"function"\<close>, with a name and the text of its
  arguments, or of another type, with \<^verbatim>\<open>custom.name\<close>.
\<close>

datatype tool_call =
    FunctionCall (function_name: string) (arguments: string)
  | CustomCall (custom_name: string)

datatype choice = Choice (tool_calls: "tool_call list option")

datatype response = Response (choices: "choice list")

text \<open>
  \<^verbatim>\<open>client.chat.completions.create\<close> is the external oracle. Its promise rejects
  or resolves with a response; the model takes it as a function of the number of
  requests made so far, which covers every way the oracle can answer a run.
\<close>

datatype completion = Rejected | Completed response

datatype ResolutionStrategy = Ignore | Throw | RetryAll (maxRetries: int)

record AgentConfig =
  resolutionStrategy :: "ResolutionStrategy option"

text \<open>
  The error texts of the source, by kind (the texts embed \<^verbatim>\<open>JSON.stringify\<close> of the
  response, which nothing reads back).
\<close>

datatype tool_error = InvalidJson | InvalidArgs | HandlerThrew | UnknownTool | NotFunction

datatype verification =
    Verified
  | NoChoices
  | NoToolCalls
  | ToolErrors "(string \<times> tool_error) list"

datatype respond_error =
    ClientRejected
  | VerificationFailed verification
  | RetryOver verification

datatype respond_result = Returned | Raised respond_error

text \<open>
  A handler of the caller runs on the caller's variables, the state \<open>'s\<close>; it returns
  or throws, in both cases leaving a state behind.
\<close>

datatype 's handler_result = Returns 's | Throws 's

text \<open>
  \<^verbatim>\<open>ToolDefinition\<close>: the zod schema \<^verbatim>\<open>arg\<close>, as its \<^verbatim>\<open>safeParse\<close> on a parsed
  JSON value (\<open>Some data\<close> on success), and \<^verbatim>\<open>fn.handler\<close>. zod and
  \<^verbatim>\<open>JSON.parse\<close> are libraries: the schema is a field of the tool and the parser
  a parameter \<open>JSON_parse\<close>.
\<close>

record ('j, 'a, 's) ToolDefinition =
  arg :: "'j \<Rightarrow> 'a option"
  handler :: "'a \<Rightarrow> 's \<Rightarrow> 's handler_result"

type_synonym 's ToolHandlerInner = "string \<Rightarrow> 's \<Rightarrow> tool_error option \<times> 's"

text \<open>
  The handler \<^verbatim>\<open>_transformTool\<close> builds (the version that passes
  \<^verbatim>\<open>{ arg: parseResult.data, response }\<close>): an error text for invalid JSON, for
  arguments the schema rejects and for a handler that throws; nothing otherwise.
\<close>

definition transformTool :: "(string \<Rightarrow> 'j option) \<Rightarrow> ('j, 'a, 's) ToolDefinition \<Rightarrow> 's ToolHandlerInner" where
  "transformTool JSON_parse t argJson s =
     (case JSON_parse argJson of
        None \<Rightarrow> (Some InvalidJson, s)
      | Some j \<Rightarrow>
          (case arg t j of
             None \<Rightarrow> (Some InvalidArgs, s)
           | Some data \<Rightarrow>
               (case handler t data s of
                  Throws s' \<Rightarrow> (Some HandlerThrew, s')
                | Returns s' \<Rightarrow> (None, s'))))"

text \<open>
  \<^verbatim>\<open>handlers[name] = handler\<close> for every entry of \<^verbatim>\<open>args.tools\<close>. A name is
  looked up among these entries only: names a JavaScript object inherits from its
  prototype are outside the model.
\<close>

definition tool_handlers :: "(string \<Rightarrow> 'j option) \<Rightarrow> (string \<times> ('j, 'a, 's) ToolDefinition) list \<Rightarrow> (string \<rightharpoonup> 's ToolHandlerInner)" where
  "tool_handlers JSON_parse tools =
     foldl (\<lambda>handlers (name, t). handlers(name \<mapsto> transformTool JSON_parse t)) Map.empty tools"

text \<open>
  The loop of \<^verbatim>\<open>_verifyAndCallHandlers\<close> over the tool calls. \<open>results\<close> is the
  object \<^verbatim>\<open>results: Record<string, string>\<close>, an association list in insertion order.
\<close>

fun callHandlers :: "(string \<rightharpoonup> 's ToolHandlerInner) \<Rightarrow> tool_call list \<Rightarrow> (string \<times> tool_error) list \<Rightarrow> 's \<Rightarrow> (string \<times> tool_error) list \<times> 's" where
  "callHandlers handlers [] results s = (results, s)"
| "callHandlers handlers (CustomCall name # toolCalls) results s =
     callHandlers handlers toolCalls (AList.update name NotFunction results) s"
| "callHandlers handlers (FunctionCall name argJson # toolCalls) results s =
     (case handlers name of
        None \<Rightarrow> callHandlers handlers toolCalls (AList.update name UnknownTool results) s
      | Some h \<Rightarrow>
          (case h argJson s of
             (Some err, s') \<Rightarrow> callHandlers handlers toolCalls (AList.update name err results) s'
           | (None, s') \<Rightarrow> callHandlers handlers toolCalls results s'))"

definition verifyAndCallHandlers :: "response \<Rightarrow> (string \<rightharpoonup> 's ToolHandlerInner) \<Rightarrow> 's \<Rightarrow> verification \<times> 's" where
  "verifyAndCallHandlers r handlers s =
     (case choices r of
        [] \<Rightarrow> (NoChoices, s)
      | c # _ \<Rightarrow>
          (case tool_calls c of
             None \<Rightarrow> (NoToolCalls, s)
           | Some toolCalls \<Rightarrow>
               (case callHandlers handlers toolCalls [] s of
                  (results, s') \<Rightarrow> (if results = [] then Verified else ToolErrors results, s'))))"

text \<open>
  The \<^verbatim>\<open>while (true)\<close> loop of \<^verbatim>\<open>respond\<close> under \<^verbatim>\<open>retryAll\<close>.
  \<open>calls\<close> counts the requests sent to the oracle; the result carries the caller's
  state and the count after the round.
\<close>

function retry_loop :: "int \<Rightarrow> (nat \<Rightarrow> completion) \<Rightarrow> (string \<rightharpoonup> 's ToolHandlerInner) \<Rightarrow> int \<Rightarrow> nat \<Rightarrow> 's \<Rightarrow> respond_result \<times> 's \<times> nat" where
  "retry_loop maxR client handlers retryCount calls s =
     (case client calls of
        Rejected \<Rightarrow> (Raised ClientRejected, s, Suc calls)
      | Completed r \<Rightarrow>
          (case verifyAndCallHandlers r handlers s of
             (v, s') \<Rightarrow>
               if v = Verified then (Returned, s', Suc calls)
               else if retryCount + 1 \<le> maxR
                 then retry_loop maxR client handlers (retryCount + 1) (Suc calls) s'
                 else (Raised (RetryOver v), s', Suc calls)))"
  by pat_completeness auto
termination
  by (relation "measure (\<lambda>(maxR, client, handlers, retryCount, calls, s). nat (maxR - retryCount))") auto

declare retry_loop.simps [simp del]

definition respond :: "AgentConfig \<Rightarrow> (string \<Rightarrow> 'j option) \<Rightarrow> (nat \<Rightarrow> completion) \<Rightarrow> (string \<times> ('j, 'a, 's) ToolDefinition) list \<Rightarrow> nat \<Rightarrow> 's \<Rightarrow> respond_result \<times> 's \<times> nat" where
  "respond config JSON_parse client tools calls s =
     (let handlers = tool_handlers JSON_parse tools in
      case client calls of
        Rejected \<Rightarrow> (Raised ClientRejected, s, Suc calls)
      | Completed r \<Rightarrow>
          (case verifyAndCallHandlers r handlers s of
             (v, s') \<Rightarrow>
               if v = Verified then (Returned, s', Suc calls)
               else
                 (case resolutionStrategy config of
                    None \<Rightarrow> (Returned, s', Suc calls)
                  | Some Ignore \<Rightarrow> (Returned, s', Suc calls)
                  | Some Throw \<Rightarrow> (Raised (VerificationFailed v), s', Suc calls)
                  | Some (RetryAll maxR) \<Rightarrow> retry_loop maxR client handlers 0 (Suc calls) s')))"

text \<open>
  To observe that a handler ran, a tool is given a trace of the arguments its handler was
  called with, next to the caller's state; the handler itself is unchanged.
\<close>

definition recording :: "('j, 'a, 's) ToolDefinition \<Rightarrow> ('j, 'a, 's \<times> 'a list) ToolDefinition" where
  "recording t =
     \<lparr>arg = arg t,
      handler = (\<lambda>a (s, trace).
        case handler t a s of
          Returns s' \<Rightarrow> Returns (s', trace @ [a])
        | Throws s' \<Rightarrow> Throws (s', trace @ [a]))\<rparr>"

text \<open>
  The state a handler leaves, whether it returned or threw, and the relation "between
  the states \<open>sl\<close> and \<open>sl'\<close> of a traced tool, its handler was fired with the
  arguments \<open>as\<close>, in order, each accepted by \<^verbatim>\<open>JSON.parse\<close> and the schema".
\<close>

fun state_after :: "'s handler_result \<Rightarrow> 's" where
  "state_after (Returns s) = s"
| "state_after (Throws s) = s"

definition fire :: "('j, 'a, 's) ToolDefinition \<Rightarrow> 's \<Rightarrow> 'a \<Rightarrow> 's" where
  "fire t s a = state_after (handler t a s)"

definition fired_by :: "(string \<Rightarrow> 'j option) \<Rightarrow> ('j, 'a, 's) ToolDefinition \<Rightarrow> 's \<times> 'a list \<Rightarrow> 's \<times> 'a list \<Rightarrow> 'a list \<Rightarrow> bool" where
  "fired_by JSON_parse t sl sl' as =
     (snd sl' = snd sl @ as \<and> fst sl' = foldl (fire t) (fst sl) as
      \<and> list_all (\<lambda>a. \<exists>argJson j. JSON_parse argJson = Some j \<and> arg t j = Some a) as)"

section \<open>The knowledge tree engine (knowledge.ts)\<close>

text \<open>
  The engine sees one thing of \<^verbatim>\<open>agent.respond\<close>: during the call the handler of
  its single tool is run some number of times, each time on schema-valid arguments, and
  then the call returns or raises (the tests of the repository replace \<^verbatim>\<open>respond\<close>
  by exactly such a stub). A round is the list of arguments the handler was fired with,
  in order, and whether the call raised.
\<close>

datatype 'a round = Round (fired: "'a list") (raised: bool)

text \<open>The arguments of the tools \<^verbatim>\<open>updateDocument\<close>, and \<^verbatim>\<open>splitDocument\<close> (one
  per part) and \<^verbatim>\<open>mergeDocuments\<close>: \<^verbatim>\<open>{ content, shortDescription }\<close>.\<close>

datatype update_arg = UpdateArg (newDocument: string) (shortUpdateDescription: string)

datatype summary_arg = SummaryArg (new_content: string) (shortDescription: string)

text \<open>
  The oracle behind the agent, one function per tool. Each takes the number of rounds
  issued so far and what the messages of the round carry: for \<^verbatim>\<open>selectDocument\<close>
  whether the instructions allow the answer -1 (\<^verbatim>\<open>find\<close>) or not
  (\<^verbatim>\<open>_findLeaf\<close>), the query and the Heading; for \<^verbatim>\<open>createRoot\<close> the query; for
  \<^verbatim>\<open>updateDocument\<close> the document's content and the query; for
  \<^verbatim>\<open>splitDocument\<close> the fan-out and the content; for \<^verbatim>\<open>mergeDocuments\<close> the
  contents of the siblings.
\<close>

record Oracle =
  selectDocument :: "nat \<Rightarrow> bool \<Rightarrow> string \<Rightarrow> node \<Rightarrow> int round"
  createRoot :: "nat \<Rightarrow> string \<Rightarrow> string round"
  updateDocument :: "nat \<Rightarrow> string \<Rightarrow> string \<Rightarrow> update_arg round"
  splitDocument :: "nat \<Rightarrow> int \<Rightarrow> string \<Rightarrow> summary_arg list round"
  mergeDocuments :: "nat \<Rightarrow> string list \<Rightarrow> summary_arg round"

record KnowledgeConfig =
  config_k :: int
  maxDocumentSizeChars :: int

datatype error =
    AgentError
  | NonExistentDocument

datatype 'a result = Ok 'a | Err error



text \<open>\<^verbatim>\<open>_findLeaf\<close>: the same loop without the test for -1, remembering the last
  Heading, and throwing at an Empty node.\<close>

fun findLeaf_loop :: "nat \<Rightarrow> Oracle \<Rightarrow> InMemoryKnowledgeStorage \<Rightarrow> string \<Rightarrow> nat \<Rightarrow> int \<Rightarrow> node option \<Rightarrow> int list \<Rightarrow> ((node \<times> node option) result \<times> nat \<times> int list) option" where
  "findLeaf_loop 0 orc st query n docId parent gets = None"
| "findLeaf_loop (Suc fuel) orc st query n docId parent gets =
     (let nd = get_node st docId; gets' = gets @ [docId] in
      if is_Document nd then Some (Ok (nd, parent), n, gets')
      else if is_Empty nd then Some (Err NonExistentDocument, n, gets')
      else
        (case selectDocument orc n False query nd of
           Round args r \<Rightarrow>
             if r then Some (Err AgentError, Suc n, gets')
             else findLeaf_loop fuel orc st query (Suc n) (foldl (\<lambda>_ a. a) docId args) (Some nd) gets'))"

definition findLeaf :: "nat \<Rightarrow> Oracle \<Rightarrow> InMemoryKnowledgeStorage \<Rightarrow> string \<Rightarrow> nat \<Rightarrow> ((node \<times> node option) result \<times> nat \<times> int list) option" where
  "findLeaf fuel orc st query n = findLeaf_loop fuel orc st query n ROOT_DOC_ID None []"

text \<open>The handlers of \<^verbatim>\<open>update\<close>, each on the variables it writes.\<close>

definition createRoot_handler :: "InMemoryKnowledgeStorage \<Rightarrow> string \<Rightarrow> InMemoryKnowledgeStorage" where
  "createRoot_handler st c = set_node st (Document ROOT_DOC_ID None c)"

definition updateDocument_handler :: "node \<Rightarrow> string \<times> InMemoryKnowledgeStorage \<Rightarrow> update_arg \<Rightarrow> string \<times> InMemoryKnowledgeStorage" where
  "updateDocument_handler docToUpdate v a =
     (shortUpdateDescription a,
      set_node (snd v) (Document (node_id docToUpdate) (parentId docToUpdate) (newDocument a)))"

text \<open>The \<^verbatim>\<open>for (const newDoc of arg)\<close> loop of the split handler: its variables are
  \<^verbatim>\<open>newDocRefs\<close>, \<^verbatim>\<open>docsToSet\<close> and the store (whose counter moves).\<close>

definition split_step :: "node \<Rightarrow> ref list \<times> node list \<times> InMemoryKnowledgeStorage \<Rightarrow> summary_arg \<Rightarrow> ref list \<times> node list \<times> InMemoryKnowledgeStorage" where
  "split_step docToUpdate v newDoc =
     (case v of (newDocRefs, docsToSet, st) \<Rightarrow>
        (case generateId st of (newId, st') \<Rightarrow>
           (newDocRefs @ [Ref newId (shortDescription newDoc)],
            docsToSet @ [Document newId (Some (node_id docToUpdate)) (new_content newDoc)],
            st')))"

definition splitDocument_handler :: "node \<Rightarrow> InMemoryKnowledgeStorage \<Rightarrow> summary_arg list \<Rightarrow> InMemoryKnowledgeStorage" where
  "splitDocument_handler docToUpdate st a =
     (case foldl (split_step docToUpdate) ([], [], st) a of
        (newDocRefs, docsToSet, st') \<Rightarrow>
          setMany st' (docsToSet @ [Heading (node_id docToUpdate) (parentId docToUpdate) newDocRefs]))"

text \<open>
  The merge handler. \<^verbatim>\<open>if (parentHeading.parentId)\<close> tests a number for truthiness:
  \<^verbatim>\<open>undefined\<close> and 0 are both falsy.
\<close>

definition truthy :: "int option \<Rightarrow> bool" where
  "truthy v = (case v of None \<Rightarrow> False | Some i \<Rightarrow> i \<noteq> 0)"

definition mergeDocuments_handler :: "node \<Rightarrow> InMemoryKnowledgeStorage \<Rightarrow> summary_arg \<Rightarrow> InMemoryKnowledgeStorage" where
  "mergeDocuments_handler parentHeading st a =
     (let st1 = set_node st (Document (node_id parentHeading) (parentId parentHeading) (new_content a)) in
      if truthy (parentId parentHeading) then
        (case parentId parentHeading of
           None \<Rightarrow> st1
         | Some g \<Rightarrow>
             let grandParent = get_node st1 g in
             if is_Heading grandParent then
               set_node st1
                 (Heading (node_id grandParent) (parentId grandParent)
                    (map (\<lambda>r. if ref_id r = node_id parentHeading
                               then Ref (ref_id r) (shortDescription a) else r)
                       (refs grandParent)))
             else st1)
      else st1)"

text \<open>The three steps of \<^verbatim>\<open>update\<close> after the leaf is found, in the order of the
  source; each returns the store and the number of rounds issued.\<close>

definition editPhase :: "Oracle \<Rightarrow> InMemoryKnowledgeStorage \<Rightarrow> string \<Rightarrow> nat \<Rightarrow> node \<Rightarrow> string result \<times> InMemoryKnowledgeStorage \<times> nat" where
  "editPhase orc st query n docToUpdate =
     (case updateDocument orc n (content docToUpdate) query of
        Round args r \<Rightarrow>
          (case foldl (updateDocument_handler docToUpdate) ([], st) args of
             (shortUpdateDescription', st') \<Rightarrow>
               if r then (Err AgentError, st', Suc n) else (Ok shortUpdateDescription', st', Suc n)))"

definition splitPhase :: "KnowledgeConfig \<Rightarrow> Oracle \<Rightarrow> InMemoryKnowledgeStorage \<Rightarrow> nat \<Rightarrow> node \<Rightarrow> unit result \<times> InMemoryKnowledgeStorage \<times> nat" where
  "splitPhase config orc st n docToUpdate =
     (let updatedDoc = get_node st (node_id docToUpdate) in
      if is_Document updatedDoc \<and> int (length (content updatedDoc)) > maxDocumentSizeChars config then
        (case splitDocument orc n (config_k config) (content updatedDoc) of
           Round args r \<Rightarrow>
             let st' = foldl (splitDocument_handler docToUpdate) st args in
             if r then (Err AgentError, st', Suc n) else (Ok (), st', Suc n))
      else (Ok (), st, n))"

definition totalSize :: "node list \<Rightarrow> nat" where
  "totalSize siblings = foldl (\<lambda>acc s. if is_Document s then acc + length (content s) else acc) 0 siblings"

definition mergePhase :: "KnowledgeConfig \<Rightarrow> Oracle \<Rightarrow> InMemoryKnowledgeStorage \<Rightarrow> nat \<Rightarrow> node option \<Rightarrow> unit result \<times> InMemoryKnowledgeStorage \<times> nat" where
  "mergePhase config orc st n parent =
     (case parent of
        None \<Rightarrow> (Ok (), st, n)
      | Some parentHeading \<Rightarrow>
          let siblings = getMany st (map ref_id (refs parentHeading)) in
          if real (totalSize siblings) < real_of_int (maxDocumentSizeChars config) / 2 then
            (case mergeDocuments orc n (map (\<lambda>s. if is_Document s then content s else []) siblings) of
               Round args r \<Rightarrow>
                 let st' = foldl (mergeDocuments_handler parentHeading) st args in
                 if r then (Err AgentError, st', Suc n) else (Ok (), st', Suc n))
          else (Ok (), st, n))"

definition rebalance :: "KnowledgeConfig \<Rightarrow> Oracle \<Rightarrow> InMemoryKnowledgeStorage \<Rightarrow> nat \<Rightarrow> node \<Rightarrow> node option \<Rightarrow> unit result \<times> InMemoryKnowledgeStorage \<times> nat" where
  "rebalance config orc st n docToUpdate parent =
     (case splitPhase config orc st n docToUpdate of
        (Err e, st2, n2) \<Rightarrow> (Err e, st2, n2)
      | (Ok _, st2, n2) \<Rightarrow> mergePhase config orc st2 n2 parent)"

definition update :: "nat \<Rightarrow> KnowledgeConfig \<Rightarrow> Oracle \<Rightarrow> InMemoryKnowledgeStorage \<Rightarrow> string \<Rightarrow> nat \<Rightarrow> (string result \<times> InMemoryKnowledgeStorage \<times> nat) option" where
  "update fuel config orc st query n =
     (if is_Empty (get_node st ROOT_DOC_ID) then
        (case createRoot orc n query of
           Round args r \<Rightarrow>
             let st' = foldl createRoot_handler st args in
             if r then Some (Err AgentError, st', Suc n)
             else Some (Ok ''Initialized the knowledge base'', st', Suc n))
      else
        (case findLeaf fuel orc st query n of
           None \<Rightarrow> None
         | Some (Err e, n1, gets) \<Rightarrow> Some (Err e, st, n1)
         | Some (Ok (docToUpdate, parent), n1, gets) \<Rightarrow>
             (case editPhase orc st query n1 docToUpdate of
                (Err e, st1, n2) \<Rightarrow> Some (Err e, st1, n2)
              | (Ok description, st1, n2) \<Rightarrow>
                  (case rebalance config orc st1 n2 docToUpdate parent of
                     (Err e, st3, n3) \<Rightarrow> Some (Err e, st3, n3)
                   | (Ok _, st3, n3) \<Rightarrow> Some (Ok description, st3, n3)))))"


inductive findLeaf_reaches :: "Oracle \<Rightarrow> InMemoryKnowledgeStorage \<Rightarrow> string \<Rightarrow> nat \<Rightarrow> nat \<Rightarrow> int \<Rightarrow> node option \<Rightarrow> int list \<Rightarrow> bool"
  for orc st query first where
    findLeaf_start: "findLeaf_reaches orc st query first first ROOT_DOC_ID None []"
  | findLeaf_step: "findLeaf_reaches orc st query first n docId parent gets \<Longrightarrow>
      is_Heading (get_node st docId) \<Longrightarrow>
      selectDocument orc n False query (get_node st docId) = Round args False \<Longrightarrow>
      findLeaf_reaches orc st query first (Suc n) (foldl (\<lambda>_ a. a) docId args)
        (Some (get_node st docId)) (gets @ [docId])"



section \<open>Scenarios\<close>

text \<open>Stores and scripted oracles on which the theorems below are exercised. The first
  store is the one of the repository's merge test.\<close>

definition store_two_docs :: InMemoryKnowledgeStorage where
  "store_two_docs =
     \<lparr>storage = [0 \<mapsto> Heading 0 None [Ref 1 ''Doc 1'', Ref 2 ''Doc 2''],
                 1 \<mapsto> Document 1 (Some 0) ''Small doc 1'',
                 2 \<mapsto> Document 2 (Some 0) ''Small doc 2''],
      next_id = 3\<rparr>"

text \<open>The store of the test "find should return undefined if no document is found": a
  root Heading whose only child is absent.\<close>

definition store_dangling :: InMemoryKnowledgeStorage where
  "store_dangling = \<lparr>storage = [0 \<mapsto> Heading 0 None [Ref 1 ''A test document'']], next_id = 1\<rparr>"

text \<open>An oracle whose rounds all return without firing a tool, and variants of it that
  answer one tool.\<close>

definition silent_oracle :: Oracle where
  "silent_oracle =
     \<lparr>selectDocument = (\<lambda>n allow q nd. Round [] False),
      createRoot = (\<lambda>n q. Round [] False),
      updateDocument = (\<lambda>n c q. Round [] False),
      splitDocument = (\<lambda>n fanout c. Round [] False),
      mergeDocuments = (\<lambda>n cs. Round [] False)\<rparr>"

definition select_oracle :: "int \<Rightarrow> Oracle" where
  "select_oracle i = silent_oracle\<lparr>selectDocument := (\<lambda>n allow q nd. Round [i] False)\<rparr>"

definition root_oracle :: "string \<Rightarrow> Oracle" where
  "root_oracle c = silent_oracle\<lparr>createRoot := (\<lambda>n q. Round [c] False)\<rparr>"

definition default_config :: KnowledgeConfig where
  "default_config = \<lparr>config_k = DEFAULT_K, maxDocumentSizeChars = DEFAULT_MAX_DOCUMENT_SIZE_CHARS\<rparr>"

text \<open>A tool whose schema accepts every value and whose handler does nothing, and
  oracles that answer every request alike: with no choice, with a message without tool
  calls, with one call of the tool \<^verbatim>\<open>test\<close> (the mock client of the agent's tests).\<close>

definition echo_tool :: "(string, string, unit) ToolDefinition" where
  "echo_tool = \<lparr>arg = (\<lambda>j. Some j), handler = (\<lambda>a s. Returns s)\<rparr>"

definition no_choices_client :: "nat \<Rightarrow> completion" where
  "no_choices_client = (\<lambda>i. Completed (Response []))"



text \<open>The repository's split test (a 200-character edit against a limit of 150, split
  in two parts) and its merge test (limit 100), and the tree a root split in two followed
  by a split of its first child leaves, for a merge below the root.\<close>

definition config_150 :: KnowledgeConfig where
  "config_150 = \<lparr>config_k = DEFAULT_K, maxDocumentSizeChars = 150\<rparr>"

definition config_100 :: KnowledgeConfig where
  "config_100 = \<lparr>config_k = DEFAULT_K, maxDocumentSizeChars = 100\<rparr>"

definition store_initial :: InMemoryKnowledgeStorage where
  "store_initial = \<lparr>storage = [0 \<mapsto> Document 0 None ''Initial content''], next_id = 1\<rparr>"


definition two_parts :: "summary_arg list" where
  "two_parts = [SummaryArg (replicate 100 CHR ''a'') ''Part 1'', SummaryArg (replicate 100 CHR ''a'') ''Part 2'']"

definition split_oracle :: Oracle where
  "split_oracle = silent_oracle
     \<lparr>selectDocument := (\<lambda>n allow q nd. Round [0] False),
      updateDocument := (\<lambda>n c q. Round [UpdateArg (replicate 200 CHR ''a'') ''Made document large''] False),
      splitDocument := (\<lambda>n fanout c. Round [two_parts] False)\<rparr>"


definition merge_oracle :: Oracle where
  "merge_oracle = silent_oracle
     \<lparr>selectDocument := (\<lambda>n allow q nd. Round [1] False),
      updateDocument := (\<lambda>n c q. Round [UpdateArg ''updated'' ''Made document small''] False),
      mergeDocuments := (\<lambda>n cs. Round [SummaryArg ''merged content'' ''Merged docs''] False)\<rparr>"

definition store_nested :: InMemoryKnowledgeStorage where
  "store_nested =
     \<lparr>storage = [0 \<mapsto> Heading 0 None [Ref 1 ''Pets'', Ref 2 ''Cars''],
                 1 \<mapsto> Heading 1 (Some 0) [Ref 3 ''Cats'', Ref 4 ''Dogs''],
                 2 \<mapsto> Document 2 (Some 0) ''Q: cars? A: no'',
                 3 \<mapsto> Document 3 (Some 1) ''Q: cats? A: yes'',
                 4 \<mapsto> Document 4 (Some 1) ''Q: dogs? A: yes''],
      next_id = 5\<rparr>"

definition nested_oracle :: Oracle where
  "nested_oracle = silent_oracle
     \<lparr>selectDocument := (\<lambda>n allow q nd. Round [if node_id nd = 0 then 1 else 3] False),
      updateDocument := (\<lambda>n c q. Round [UpdateArg ''Q: cats? A: no'' ''Edited cats''] False),
      mergeDocuments := (\<lambda>n cs. Round [SummaryArg ''Q: cats? A: no Q: dogs? A: yes'' ''Cats and dogs''] False)\<rparr>"

section \<open>Properties of the store\<close>

lemma next_id_set_node [simp]: "next_id (set_node st doc) = next_id st"
  by (simp add: set_node_def)

lemma next_id_setMany [simp]: "next_id (setMany st docs) = next_id st"
  unfolding setMany_def by (induction docs arbitrary: st) simp_all

lemma get_node_present: "storage st i = Some elem \<Longrightarrow> get_node st i = elem"
  by (simp add: get_node_def)

lemma get_node_absent: "storage st i = None \<Longrightarrow> get_node st i = Empty i"
  by (simp add: get_node_def)

lemma issued_inv_run_op: "issued_inv p \<Longrightarrow> issued_inv (run_op p op)"
proof (cases p)
  case (Pair issued st)
  assume inv: "issued_inv p"
  show ?thesis
  proof (cases op)
    case OpGenerateId
    with Pair inv show ?thesis
      by (auto simp: issued_inv_def generateId_def sorted_wrt_append list_all_iff)
  qed (use Pair inv in \<open>auto simp: issued_inv_def\<close>)
qed

lemma issued_inv_foldl: "issued_inv p \<Longrightarrow> issued_inv (foldl run_op p ops)"
  by (induction ops arbitrary: p) (simp_all add: issued_inv_run_op)

lemma issued_inv_run_ops: "issued_inv (run_ops ops new_storage)"
  unfolding run_ops_def
  by (rule issued_inv_foldl) (simp add: issued_inv_def new_storage_def)

text \<open>
  Claim C9. On the store as the engine constructs it (empty, counter 1), whatever
  sequence of calls is made (deletions through \<^verbatim>\<open>set\<close> of an Empty node included),
  the identifiers \<^verbatim>\<open>generateId\<close> returns increase strictly, so that each is greater
  than every identifier issued before it and none is issued twice, and ROOT (0) is
  never among them.
\<close>

theorem generateId_fresh:
  "sorted_wrt (<) (fst (run_ops ops new_storage))
   \<and> distinct (fst (run_ops ops new_storage))
   \<and> ROOT_DOC_ID \<notin> set (fst (run_ops ops new_storage))"
proof -
  have inv: "issued_inv (run_ops ops new_storage)"
    by (rule issued_inv_run_ops)
  then have s: "sorted_wrt (<) (fst (run_ops ops new_storage))"
    by (simp add: issued_inv_def)
  from inv have "list_all (\<lambda>i. 1 \<le> i) (fst (run_ops ops new_storage))"
    by (simp add: issued_inv_def list_all_iff)
  then have r: "ROOT_DOC_ID \<notin> set (fst (run_ops ops new_storage))"
    by (auto simp: ROOT_DOC_ID_def list_all_iff)
  from s have "distinct (fst (run_ops ops new_storage))"
    by (simp add: strict_sorted_iff)
  with s r show ?thesis by simp
qed

text \<open>
  Claim C10. \<^verbatim>\<open>getMany(ids)\<close> returns a list as long as \<open>ids\<close> whose i-th element is
  what \<^verbatim>\<open>get(ids[i])\<close> returns: the stored node when the identifier is present, an
  Empty node carrying that identifier when it is absent.
\<close>

theorem getMany_aligned:
  "length (getMany st ids) = length ids
   \<and> (\<forall>i < length ids.
        getMany st ids ! i = get_node st (ids ! i)
        \<and> getMany st ids ! i =
            (case storage st (ids ! i) of Some elem \<Rightarrow> elem | None \<Rightarrow> Empty (ids ! i)))"
  by (simp add: getMany_def get_node_def)

theorem getMany_aligned_witness:
  "length (getMany store_two_docs [2, 7, 1]) = 3
   \<and> getMany store_two_docs [2, 7, 1] ! 0 = Document 2 (Some 0) ''Small doc 2''
   \<and> getMany store_two_docs [2, 7, 1] ! 1 = Empty 7
   \<and> getMany store_two_docs [2, 7, 1] ! 2 = Document 1 (Some 0) ''Small doc 1''"
  using getMany_aligned [of store_two_docs "[2, 7, 1]"]
  by (simp add: store_two_docs_def get_node_def)

section \<open>Properties of the traversals\<close>






lemma findLeaf_reaches_run:
  "findLeaf_reaches orc st query first n docId parent gets \<Longrightarrow>
   findLeaf (length gets + fuel) orc st query first = findLeaf_loop fuel orc st query n docId parent gets"
proof (induction arbitrary: fuel rule: findLeaf_reaches.induct)
  case findLeaf_start
  show ?case by (simp add: findLeaf_def)
next
  case (findLeaf_step n docId parent gets args)
  have nd: "\<not> is_Empty (get_node st docId)" "\<not> is_Document (get_node st docId)"
    using findLeaf_step.hyps(2) by (cases "get_node st docId"; simp)+
  have "findLeaf (length (gets @ [docId]) + fuel) orc st query first
      = findLeaf (length gets + Suc fuel) orc st query first"
    by simp
  also have "\<dots> = findLeaf_loop (Suc fuel) orc st query n docId parent gets"
    by (rule findLeaf_step.IH)
  also have "\<dots> = findLeaf_loop fuel orc st query (Suc n) (foldl (\<lambda>_ a. a) docId args)
      (Some (get_node st docId)) (gets @ [docId])"
    using findLeaf_step.hyps(3) nd by (simp add: Let_def)
  finally show ?case .
qed

text \<open>
  Claim C5. In \<^verbatim>\<open>update\<close> on a store whose ROOT is present, whenever the traversal
  arrives at an identifier under which the store holds nothing, the traversal throws and
  \<^verbatim>\<open>update\<close> ends with that error: the store is as it was and no round was issued
  after the traversal's, so neither the edit nor the rebalance ran.
\<close>

theorem update_empty_is_fatal:
  "\<not> is_Empty (get_node st ROOT_DOC_ID)
   \<and> findLeaf_reaches orc st query first n docId parent gets
   \<and> is_Empty (get_node st docId)
   \<longrightarrow> findLeaf (length gets + 1 + fuel) orc st query first
         = Some (Err NonExistentDocument, n, gets @ [docId])
       \<and> update (length gets + 1 + fuel) config orc st query first
         = Some (Err NonExistentDocument, st, n)"
proof (intro impI)
  assume a: "\<not> is_Empty (get_node st ROOT_DOC_ID)
   \<and> findLeaf_reaches orc st query first n docId parent gets
   \<and> is_Empty (get_node st docId)"
  then have "findLeaf (length gets + (1 + fuel)) orc st query first
      = findLeaf_loop (1 + fuel) orc st query n docId parent gets"
    by (intro findLeaf_reaches_run) simp
  also have "\<dots> = Some (Err NonExistentDocument, n, gets @ [docId])"
    using a by (cases "get_node st docId") (simp_all add: Let_def)
  finally have leaf: "findLeaf (length gets + 1 + fuel) orc st query first
      = Some (Err NonExistentDocument, n, gets @ [docId])"
    by (simp add: add.assoc)
  with a show "findLeaf (length gets + 1 + fuel) orc st query first
         = Some (Err NonExistentDocument, n, gets @ [docId])
       \<and> update (length gets + 1 + fuel) config orc st query first
         = Some (Err NonExistentDocument, st, n)"
    by (simp add: update_def)
qed

theorem update_empty_is_fatal_witness:
  "update (Suc (Suc 0)) default_config (select_oracle 1) store_dangling ''a query'' 0
     = Some (Err NonExistentDocument, store_dangling, Suc 0)"
proof -
  have "findLeaf_reaches (select_oracle 1) store_dangling ''a query'' 0 0 ROOT_DOC_ID None []"
    by (rule findLeaf_start)
  then have "findLeaf_reaches (select_oracle 1) store_dangling ''a query'' 0 (Suc 0)
      (foldl (\<lambda>_ a. a) ROOT_DOC_ID [1]) (Some (get_node store_dangling ROOT_DOC_ID)) ([] @ [ROOT_DOC_ID])"
    by (rule findLeaf_step)
      (simp_all add: select_oracle_def silent_oracle_def store_dangling_def get_node_def ROOT_DOC_ID_def)
  then have r: "findLeaf_reaches (select_oracle 1) store_dangling ''a query'' 0 (Suc 0) 1
      (Some (Heading 0 None [Ref 1 ''A test document''])) [0]"
    by (simp add: store_dangling_def get_node_def ROOT_DOC_ID_def)
  have e: "is_Empty (get_node store_dangling 1)" "\<not> is_Empty (get_node store_dangling ROOT_DOC_ID)"
    by (simp_all add: store_dangling_def get_node_def ROOT_DOC_ID_def)
  from update_empty_is_fatal [where st = store_dangling and orc = "select_oracle 1"
      and query = "''a query''" and first = 0 and n = "Suc 0" and docId = 1
      and parent = "Some (Heading 0 None [Ref 1 ''A test document''])" and gets = "[0]"
      and fuel = 0 and config = default_config] r e
  show ?thesis by simp
qed

section \<open>Properties of update\<close>

lemma set_node_twice: "node_id a = node_id b \<Longrightarrow> set_node (set_node st a) b = set_node st b"
  by (cases st) (simp add: set_node_def)

lemma get_set_node_same: "\<not> is_Empty doc \<Longrightarrow> get_node (set_node st doc) (node_id doc) = doc"
  by (simp add: get_node_def set_node_def)

lemma get_set_node_other: "i \<noteq> node_id doc \<Longrightarrow> get_node (set_node st doc) i = get_node st i"
  by (simp add: get_node_def set_node_def)

lemma foldl_createRoot_handler:
  "foldl createRoot_handler st (cs @ [c]) = set_node st (Document ROOT_DOC_ID None c)"
proof (induction cs arbitrary: st)
  case Nil
  show ?case by (simp add: createRoot_handler_def)
next
  case (Cons a cs)
  have "foldl createRoot_handler (createRoot_handler st a) (cs @ [c])
      = set_node (createRoot_handler st a) (Document ROOT_DOC_ID None c)"
    by (rule Cons.IH)
  also have "\<dots> = set_node st (Document ROOT_DOC_ID None c)"
    by (simp add: createRoot_handler_def set_node_twice)
  finally show ?case by simp
qed

text \<open>
  Claim C6. For every query, \<^verbatim>\<open>update\<close> on a store without ROOT, when the
  \<^verbatim>\<open>createRoot\<close> round delivers content \<open>c\<close> (the last content the tool was fired
  with) and returns, stores \<open>Document 0\<close> with content \<open>c\<close> and no parent, changes no
  other node, and returns the fixed text after exactly one round. It does so for every
  fuel, zero included: the traversal is not entered.
\<close>

theorem update_bootstrap:
  "storage st ROOT_DOC_ID = None \<and> createRoot orc n query = Round (cs @ [c]) False
   \<longrightarrow> update fuel config orc st query n
         = Some (Ok ''Initialized the knowledge base'', set_node st (Document ROOT_DOC_ID None c), Suc n)
       \<and> get_node (set_node st (Document ROOT_DOC_ID None c)) ROOT_DOC_ID = Document ROOT_DOC_ID None c
       \<and> (\<forall>i. i \<noteq> ROOT_DOC_ID \<longrightarrow> get_node (set_node st (Document ROOT_DOC_ID None c)) i = get_node st i)"
  by (simp add: update_def get_node_absent foldl_createRoot_handler get_set_node_other
        get_set_node_same [of "Document ROOT_DOC_ID None c", simplified] del: foldl_append)

theorem update_bootstrap_witness:
  "update 0 default_config (root_oracle ''Q: What is the capital of France? A: Paris.'') new_storage
       ''What is the capital of France?'' 0
     = Some (Ok ''Initialized the knowledge base'',
             set_node new_storage (Document ROOT_DOC_ID None ''Q: What is the capital of France? A: Paris.''),
             Suc 0)
   \<and> get_node (set_node new_storage (Document ROOT_DOC_ID None ''Q: What is the capital of France? A: Paris.''))
        ROOT_DOC_ID
     = Document ROOT_DOC_ID None ''Q: What is the capital of France? A: Paris.''"
  using update_bootstrap [where st = new_storage
      and orc = "root_oracle ''Q: What is the capital of France? A: Paris.''" and n = 0
      and query = "''What is the capital of France?''" and cs = "[]"
      and c = "''Q: What is the capital of France? A: Paris.''" and fuel = 0
      and config = default_config]
  by (simp add: root_oracle_def silent_oracle_def new_storage_def)






lemma get_node_next_id_update [simp]: "get_node (st\<lparr>next_id := k\<rparr>) j = get_node st j"
  by (simp add: get_node_def)







text \<open>The repository's split test, end to end.\<close>

lemma update_split_scenario:
  "map_option (\<lambda>(r, st, n). (r, n, next_id st, get_node st 0, get_node st 1, get_node st 2))
     (update (Suc 0) config_150 split_oracle store_initial ''make the document large'' 0)
   = Some (Ok ''Made document large'', 2, 3,
           Heading 0 None [Ref 1 ''Part 1'', Ref 2 ''Part 2''],
           Document 1 (Some 0) (replicate 100 CHR ''a''),
           Document 2 (Some 0) (replicate 100 CHR ''a''))"
  by (simp add: update_def findLeaf_def editPhase_def rebalance_def splitPhase_def mergePhase_def
      updateDocument_handler_def store_initial_def config_150_def split_oracle_def silent_oracle_def
      two_parts_def get_node_def splitDocument_handler_def split_step_def
      generateId_def setMany_def set_node_def ROOT_DOC_ID_def)







text \<open>The example of the specification, end to end: the edit of node 1 is followed by a
  merge that turns node 0 into a Document; nodes 1 and 2 stay in the store.\<close>

lemma update_merge_scenario:
  "map_option (\<lambda>(r, st, n). (r, n, get_node st 0, get_node st 1, get_node st 2))
     (update (Suc (Suc 0)) config_100 merge_oracle store_two_docs ''make a document small'' 0)
   = Some (Ok ''Made document small'', 3,
           Document 0 None ''merged content'',
           Document 1 (Some 0) ''updated'',
           Document 2 (Some 0) ''Small doc 2'')"
  by (simp add: update_def findLeaf_def editPhase_def rebalance_def splitPhase_def mergePhase_def
      updateDocument_handler_def mergeDocuments_handler_def truthy_def totalSize_def getMany_def
      store_two_docs_def config_100_def merge_oracle_def silent_oracle_def
      get_node_def set_node_def ROOT_DOC_ID_def)

text \<open>
  Claim C4 fails on the code when the grandparent is ROOT. In the tree
  \<open>0 \<rightarrow> {1, 2}\<close>, \<open>1 \<rightarrow> {3, 4}\<close> an \<^verbatim>\<open>update\<close> routed to Document 3 merges the
  children of Heading 1: node 1 becomes a Document with the merged content, but the
  reference to it in the root keeps its old short description (\<open>Pets\<close>) instead of the
  oracle's new summary (\<open>Cats and dogs\<close>), because \<^verbatim>\<open>if (parentHeading.parentId)\<close> is
  false for the identifier 0. Under a grandparent with another identifier the
  description is replaced (\<open>merge_updates_other_grandparent\<close>).
\<close>

theorem merge_keeps_root_summary:
  "map_option (\<lambda>(r, st, n). (r, n, get_node st 1, get_node st 0))
     (update (Suc (Suc (Suc 0))) config_100 nested_oracle store_nested ''cats'' 0)
   = Some (Ok ''Edited cats'', 4,
           Document 1 (Some 0) ''Q: cats? A: no Q: dogs? A: yes'',
           Heading 0 None [Ref 1 ''Pets'', Ref 2 ''Cars''])"
  by (simp add: update_def findLeaf_def editPhase_def rebalance_def splitPhase_def mergePhase_def
      updateDocument_handler_def mergeDocuments_handler_def truthy_def totalSize_def getMany_def
      store_nested_def config_100_def nested_oracle_def silent_oracle_def
      get_node_def set_node_def ROOT_DOC_ID_def)

lemma merge_updates_other_grandparent:
  "parentId ph = Some g \<Longrightarrow> g \<noteq> 0 \<Longrightarrow> g \<noteq> node_id ph \<Longrightarrow> get_node st g = Heading g gp rs \<Longrightarrow>
   get_node (mergeDocuments_handler ph st a) g
     = Heading g gp (map (\<lambda>r. if ref_id r = node_id ph then Ref (ref_id r) (shortDescription a) else r) rs)"
  by (simp add: mergeDocuments_handler_def truthy_def Let_def get_set_node_other
      get_set_node_same [of "Heading g gp rs'" for rs', simplified])

lemma merge_skips_root_grandparent:
  "parentId ph = Some 0 \<Longrightarrow> node_id ph \<noteq> 0 \<Longrightarrow>
   get_node (mergeDocuments_handler ph st a) 0 = get_node st 0"
  by (simp add: mergeDocuments_handler_def truthy_def get_set_node_other)

section \<open>Properties of the gateway\<close>

lemma verify_no_choices [simp]: "verifyAndCallHandlers (Response []) handlers s = (NoChoices, s)"
  by (simp add: verifyAndCallHandlers_def)

lemma no_choices_client_apply: "no_choices_client i = Completed (Response [])"
  by (simp add: no_choices_client_def)

lemma retry_loop_no_choices:
  "retryCount \<le> maxR \<Longrightarrow>
   retry_loop maxR no_choices_client handlers retryCount calls s
     = (Raised (RetryOver NoChoices), s, calls + nat (maxR - retryCount) + 1)"
proof (induction maxR no_choices_client handlers retryCount calls s rule: retry_loop.induct)
  case (1 maxR handlers retryCount calls s)
  have c: "no_choices_client calls = Completed (Response [])"
    by (rule no_choices_client_apply)
  have v: "(NoChoices, s) = verifyAndCallHandlers (Response []) handlers s"
    by simp
  show ?case
  proof (cases "retryCount + 1 \<le> maxR")
    case True
    have "retry_loop maxR no_choices_client handlers retryCount calls s
        = retry_loop maxR no_choices_client handlers (retryCount + 1) (Suc calls) s"
      using True by (subst retry_loop.simps) (simp add: c)
    also have "\<dots> = (Raised (RetryOver NoChoices), s, Suc calls + nat (maxR - (retryCount + 1)) + 1)"
      by (rule "1.hyps" [OF c v _ True True]) simp
    also have "Suc calls + nat (maxR - (retryCount + 1)) + 1 = calls + nat (maxR - retryCount) + 1"
      using True by simp
    finally show ?thesis .
  next
    case False
    with 1(2) have "maxR = retryCount" by simp
    then show ?thesis
      by (subst retry_loop.simps) (simp add: c)
  qed
qed

lemma respond_retryAll_calls:
  "0 \<le> maxR \<Longrightarrow>
   respond \<lparr>resolutionStrategy = Some (RetryAll maxR)\<rparr> JSON_parse no_choices_client tools calls s
     = (Raised (RetryOver NoChoices), s, calls + nat maxR + 2)"
  by (simp add: respond_def retry_loop_no_choices no_choices_client_apply)

text \<open>
  Claim C8. Under \<^verbatim>\<open>retryAll\<close> with \<^verbatim>\<open>maxRetries = 0\<close> and an oracle whose every
  response fails verification, \<^verbatim>\<open>respond\<close> sends two requests before it raises: the
  first attempt and one retry. (By \<open>respond_retryAll_calls\<close> it sends
  \<^verbatim>\<open>maxRetries + 2\<close> requests in general, one retry more than \<^verbatim>\<open>maxRetries\<close>.)
\<close>

theorem retryAll_zero_retries_once:
  "respond \<lparr>resolutionStrategy = Some (RetryAll 0)\<rparr> Some no_choices_client [(''test'', echo_tool)] 0 ()
     = (Raised (RetryOver NoChoices), (), 2)"
  using respond_retryAll_calls [of 0 Some "[(''test'', echo_tool)]" 0 "()"] by simp



lemma tool_handlers_single:
  "tool_handlers JSON_parse [(name, t)] = [name \<mapsto> transformTool JSON_parse t]"
  by (simp add: tool_handlers_def)

lemma transformTool_recording:
  "transformTool JSON_parse (recording t) argJson sl = (err, sl') \<Longrightarrow>
   (sl' = sl \<and> err \<noteq> None)
   \<or> (\<exists>a j. JSON_parse argJson = Some j \<and> arg t j = Some a
         \<and> snd sl' = snd sl @ [a] \<and> fst sl' = fire t (fst sl) a)"
  by (cases sl)
    (auto simp: transformTool_def recording_def fire_def split: option.splits handler_result.splits)

lemma fired_by_refl: "fired_by JSON_parse t sl sl []"
  by (simp add: fired_by_def)

lemma fired_by_trans:
  "fired_by JSON_parse t sl sl1 as \<Longrightarrow> fired_by JSON_parse t sl1 sl2 bs \<Longrightarrow>
   fired_by JSON_parse t sl sl2 (as @ bs)"
  by (simp add: fired_by_def)

lemma fired_by_one:
  "JSON_parse argJson = Some j \<Longrightarrow> arg t j = Some a \<Longrightarrow> snd sl' = snd sl @ [a] \<Longrightarrow>
   fst sl' = fire t (fst sl) a \<Longrightarrow> fired_by JSON_parse t sl sl' [a]"
  by (auto simp: fired_by_def)

lemma callHandlers_single:
  "handlers name = Some (transformTool JSON_parse (recording t)) \<Longrightarrow>
   (\<And>other. other \<noteq> name \<Longrightarrow> handlers other = None) \<Longrightarrow>
   callHandlers handlers tcs results sl = (results', sl') \<Longrightarrow>
   \<exists>as. fired_by JSON_parse t sl sl' as
     \<and> (results' = [] \<longrightarrow> results = [] \<and> length as = length tcs)"
proof (induction tcs arbitrary: results sl)
  case Nil
  then show ?case by (auto intro: fired_by_refl)
next
  case (Cons tc tcs)
  show ?case
  proof (cases tc)
    case (CustomCall cname)
    with Cons.prems(3) have "callHandlers handlers tcs (AList.update cname NotFunction results) sl = (results', sl')"
      by simp
    from Cons.IH [OF Cons.prems(1,2) this] show ?thesis by auto
  next
    case (FunctionCall fname argJson)
    show ?thesis
    proof (cases "fname = name")
      case False
      with Cons.prems FunctionCall
      have "callHandlers handlers tcs (AList.update fname UnknownTool results) sl = (results', sl')"
        by simp
      from Cons.IH [OF Cons.prems(1,2) this] show ?thesis by auto
    next
      case True
      obtain err sl1 where h: "transformTool JSON_parse (recording t) argJson sl = (err, sl1)"
        by (cases "transformTool JSON_parse (recording t) argJson sl")
      from transformTool_recording [OF h]
      have first: "(sl1 = sl \<and> err \<noteq> None) \<or> (\<exists>a. fired_by JSON_parse t sl sl1 [a])"
        by (auto intro: fired_by_one)
      show ?thesis
      proof (cases err)
        case None
        with Cons.prems FunctionCall True h
        have run: "callHandlers handlers tcs results sl1 = (results', sl')"
          by simp
        from first None obtain a where a: "fired_by JSON_parse t sl sl1 [a]"
          by auto
        from Cons.IH [OF Cons.prems(1,2) run] obtain as where
          as: "fired_by JSON_parse t sl1 sl' as"
            "results' = [] \<longrightarrow> results = [] \<and> length as = length tcs"
          by blast
        from fired_by_trans [OF a as(1)] as(2)
        have "fired_by JSON_parse t sl sl' ([a] @ as)
          \<and> (results' = [] \<longrightarrow> results = [] \<and> length ([a] @ as) = length (tc # tcs))"
          by simp
        then show ?thesis by blast
      next
        case (Some e)
        with Cons.prems FunctionCall True h
        have run: "callHandlers handlers tcs (AList.update fname e results) sl1 = (results', sl')"
          by simp
        from Cons.IH [OF Cons.prems(1,2) run] obtain as where
          as: "fired_by JSON_parse t sl1 sl' as" "results' \<noteq> []"
          by auto
        from first show ?thesis
        proof
          assume "sl1 = sl \<and> err \<noteq> None"
          with as show ?thesis by auto
        next
          assume "\<exists>a. fired_by JSON_parse t sl sl1 [a]"
          then obtain a where "fired_by JSON_parse t sl sl1 [a]" by blast
          from fired_by_trans [OF this as(1)] as(2) show ?thesis by blast
        qed
      qed
    qed
  qed
qed

lemma verify_single:
  assumes h1: "handlers name = Some (transformTool JSON_parse (recording t))"
    and h2: "\<And>other. other \<noteq> name \<Longrightarrow> handlers other = None"
    and run: "verifyAndCallHandlers r handlers sl = (v, sl')"
  shows "\<exists>as. fired_by JSON_parse t sl sl' as
     \<and> (v = Verified \<longrightarrow> (\<exists>c cs tcs. choices r = c # cs \<and> tool_calls c = Some tcs \<and> length as = length tcs))"
proof (cases "choices r")
  case Nil
  with run show ?thesis by (auto simp: verifyAndCallHandlers_def intro: fired_by_refl)
next
  case (Cons c cs)
  show ?thesis
  proof (cases "tool_calls c")
    case None
    with run Cons show ?thesis by (auto simp: verifyAndCallHandlers_def intro: fired_by_refl)
  next
    case (Some tcs)
    obtain results where c: "callHandlers handlers tcs [] sl = (results, sl')"
      using run Cons Some
      by (cases "callHandlers handlers tcs [] sl") (simp add: verifyAndCallHandlers_def)
    with run Cons Some have v: "v = (if results = [] then Verified else ToolErrors results)"
      by (simp add: verifyAndCallHandlers_def)
    from callHandlers_single [OF h1 h2 c] obtain as where
      as: "fired_by JSON_parse t sl sl' as" "results = [] \<longrightarrow> length as = length tcs"
      by blast
    with v Cons Some show ?thesis
      by (intro exI [of _ as]) (auto split: if_splits)
  qed
qed

lemma retry_loop_single:
  "retry_loop maxR client handlers retryCount calls sl = (res, sl', calls') \<Longrightarrow>
   handlers name = Some (transformTool JSON_parse (recording t)) \<Longrightarrow>
   \<forall>other. other \<noteq> name \<longrightarrow> handlers other = None \<Longrightarrow>
     \<exists>as. fired_by JSON_parse t sl sl' as
       \<and> (res = Returned
            \<and> (\<forall>i r c cs. client i = Completed r \<and> choices r = c # cs \<longrightarrow> tool_calls c \<noteq> Some [])
           \<longrightarrow> as \<noteq> [])"
proof (induction maxR client handlers retryCount calls sl rule: retry_loop.induct)
  case (1 maxR client handlers retryCount calls sl)
  note run = "1.prems"(1)
  note h1 = "1.prems"(2) and h2 = "1.prems"(3)
  from h2 have h2': "\<And>other. other \<noteq> name \<Longrightarrow> handlers other = None"
    by blast
  show ?case
  proof (cases "client calls")
    case Rejected
    with run have "sl' = sl \<and> res \<noteq> Returned"
      by (subst (asm) retry_loop.simps) auto
    then show ?thesis by (auto intro: fired_by_refl)
  next
    case (Completed r)
    obtain v sl1 where v: "verifyAndCallHandlers r handlers sl = (v, sl1)"
      by (cases "verifyAndCallHandlers r handlers sl")
    from verify_single [OF h1 h2' v] obtain as where
      as: "fired_by JSON_parse t sl sl1 as"
        "v = Verified \<longrightarrow> (\<exists>c cs tcs. choices r = c # cs \<and> tool_calls c = Some tcs \<and> length as = length tcs)"
      by blast
    show ?thesis
    proof (cases "v = Verified")
      case True
      with run Completed v have "sl' = sl1"
        by (subst (asm) retry_loop.simps) simp
      moreover from True as(2) Completed
      have "(\<forall>i r c cs. client i = Completed r \<and> choices r = c # cs \<longrightarrow> tool_calls c \<noteq> Some [])
          \<longrightarrow> as \<noteq> []"
        by fastforce
      ultimately show ?thesis using as(1) by blast
    next
      case False
      show ?thesis
      proof (cases "retryCount + 1 \<le> maxR")
        case le: True
        from run Completed v False le
        have again: "retry_loop maxR client handlers (retryCount + 1) (Suc calls) sl1 = (res, sl', calls')"
          by (subst (asm) retry_loop.simps) simp
        from "1.IH" [OF Completed v [symmetric] False le again h1 h2] obtain bs where
          bs: "fired_by JSON_parse t sl1 sl' bs"
            "res = Returned
              \<and> (\<forall>i r c cs. client i = Completed r \<and> choices r = c # cs \<longrightarrow> tool_calls c \<noteq> Some [])
             \<longrightarrow> bs \<noteq> []"
          by blast
        from fired_by_trans [OF as(1) bs(1)] bs(2) show ?thesis
          by (intro exI [of _ "as @ bs"]) simp
      next
        case gt: False
        with run Completed v False have "sl' = sl1 \<and> res \<noteq> Returned"
          by (subst (asm) retry_loop.simps) auto
        with as(1) show ?thesis by blast
      qed
    qed
  qed
qed

lemma respond_single:
  assumes run: "respond config JSON_parse client [(name, recording t)] calls sl = (res, sl', calls')"
  shows "\<exists>as. fired_by JSON_parse t sl sl' as
     \<and> (res = Returned
          \<and> (resolutionStrategy config = Some Throw \<or> (\<exists>maxR. resolutionStrategy config = Some (RetryAll maxR)))
          \<and> (\<forall>i r c cs. client i = Completed r \<and> choices r = c # cs \<longrightarrow> tool_calls c \<noteq> Some [])
         \<longrightarrow> as \<noteq> [])"
proof -
  let ?handlers = "tool_handlers JSON_parse [(name, recording t)]"
  have h1: "?handlers name = Some (transformTool JSON_parse (recording t))"
    by (simp add: tool_handlers_single)
  have h2': "\<And>other. other \<noteq> name \<Longrightarrow> ?handlers other = None"
    by (simp add: tool_handlers_single)
  then have h2: "\<forall>other. other \<noteq> name \<longrightarrow> ?handlers other = None"
    by blast
  show ?thesis
  proof (cases "client calls")
    case Rejected
    with run have "sl' = sl \<and> res \<noteq> Returned" by (auto simp: respond_def)
    then show ?thesis by (auto intro: fired_by_refl)
  next
    case (Completed r)
    obtain v sl1 where v: "verifyAndCallHandlers r ?handlers sl = (v, sl1)"
      by (cases "verifyAndCallHandlers r ?handlers sl")
    from verify_single [OF h1 h2' v] obtain as where
      as: "fired_by JSON_parse t sl sl1 as"
        "v = Verified \<longrightarrow> (\<exists>c cs tcs. choices r = c # cs \<and> tool_calls c = Some tcs \<and> length as = length tcs)"
      by blast
    show ?thesis
    proof (cases "v = Verified")
      case True
      with run Completed v have "sl' = sl1"
        by (simp add: respond_def)
      moreover from True as(2) Completed
      have "(\<forall>i r c cs. client i = Completed r \<and> choices r = c # cs \<longrightarrow> tool_calls c \<noteq> Some [])
          \<longrightarrow> as \<noteq> []"
        by fastforce
      ultimately show ?thesis using as(1) by blast
    next
      case False
      show ?thesis
      proof (cases "resolutionStrategy config")
        case None
        with run Completed v False have "sl' = sl1" by (simp add: respond_def)
        with as(1) None show ?thesis by auto
      next
        case (Some strategy)
        show ?thesis
        proof (cases strategy)
          case Ignore
          with run Completed v False Some have "sl' = sl1" by (simp add: respond_def)
          with as(1) Some Ignore show ?thesis by auto
        next
          case Throw
          with run Completed v False Some have "sl' = sl1 \<and> res \<noteq> Returned"
            by (auto simp: respond_def)
          with as(1) show ?thesis by auto
        next
          case (RetryAll maxR)
          with run Completed v False Some
          have "retry_loop maxR client ?handlers 0 (Suc calls) sl1 = (res, sl', calls')"
            by (simp add: respond_def)
          from retry_loop_single [OF this h1 h2] obtain bs where
            bs: "fired_by JSON_parse t sl1 sl' bs"
              "res = Returned
                \<and> (\<forall>i r c cs. client i = Completed r \<and> choices r = c # cs \<longrightarrow> tool_calls c \<noteq> Some [])
               \<longrightarrow> bs \<noteq> []"
            by blast
          from fired_by_trans [OF as(1) bs(1)] bs(2) show ?thesis
            by (intro exI [of _ "as @ bs"]) simp
        qed
      qed
    qed
  qed
qed

text \<open>
  The engine's view of the gateway: whatever the strategy and the oracle, a call of
  \<^verbatim>\<open>respond\<close> with one tool whose handler does not throw leaves the state that
  results from firing the handler on some list of valid arguments, in order; this is
  what a \<open>Round\<close> records.
\<close>

lemma respond_is_round:
  "respond config JSON_parse client
     [(name, recording \<lparr>arg = schema, handler = (\<lambda>a s. Returns (h s a))\<rparr>)] calls (s, trace)
     = (res, (s', trace'), calls')
   \<Longrightarrow> \<exists>as. trace' = trace @ as \<and> s' = foldl h s as"
proof -
  assume run: "respond config JSON_parse client
     [(name, recording \<lparr>arg = schema, handler = (\<lambda>a s. Returns (h s a))\<rparr>)] calls (s, trace)
     = (res, (s', trace'), calls')"
  have "fire \<lparr>arg = schema, handler = (\<lambda>a s. Returns (h s a))\<rparr> = h"
    by (intro ext) (simp add: fire_def)
  with respond_single [OF run] show ?thesis
    by (auto simp: fired_by_def)
qed


text \<open>The case the amended claim leaves out: an empty \<^verbatim>\<open>tool_calls\<close> array passes
  verification with no handler run, here under \<^verbatim>\<open>throw\<close>.\<close>

lemma respond_empty_tool_calls:
  "respond \<lparr>resolutionStrategy = Some Throw\<rparr> Some (\<lambda>i. Completed (Response [Choice (Some [])]))
     [(''test'', recording echo_tool)] 0 ((), [])
   = (Returned, ((), []), 1)"
  by (simp add: respond_def verifyAndCallHandlers_def)


end
